theory Spec2Isabelle
  imports Complex_Main "HOL-Library.AList"
begin

section \<open>Strings\<close>

text \<open>
  A JavaScript string is modelled as a \<^typ>\<open>string\<close>: one \<^typ>\<open>char\<close> per code unit,
  for code units 0 to 255 (ASCII and Latin-1). On these code units
  \<^verbatim>\<open>String.prototype.toLowerCase\<close> maps A-Z (65..90) and the accented capitals
  192..222 other than the multiplication sign 215 to the code unit 32 above, and
  leaves every other code unit unchanged.
\<close>

definition toLowerChar :: "char \<Rightarrow> char" where
  "toLowerChar c =
     (let n = (of_char c :: nat)
      in if (65 \<le> n \<and> n \<le> 90) \<or> (192 \<le> n \<and> n \<le> 222 \<and> n \<noteq> 215)
         then char_of (n + 32) else c)"

definition toLowerCase :: "string \<Rightarrow> string" where
  "toLowerCase s = map toLowerChar s"

text \<open>The character class \<^verbatim>\<open>[a-z0-9]\<close>.\<close>

definition isLowerAlnum :: "char \<Rightarrow> bool" where
  "isLowerAlnum c =
     (let n = (of_char c :: nat)
      in (97 \<le> n \<and> n \<le> 122) \<or> (48 \<le> n \<and> n \<le> 57))"

text \<open>
  \<^verbatim>\<open>const normalize = (value) => value.toLowerCase().replace(/[^a-z0-9]/g, "")\<close>;
  the detect route and the fill route each declare it, with the same text.
\<close>

definition normalize_str :: "string \<Rightarrow> string" where
  "normalize_str v = filter isLowerAlnum (toLowerCase v)"

text \<open>\<^verbatim>\<open>String.prototype.includes\<close>: the needle occurs as a contiguous run.\<close>

fun startsWith :: "string \<Rightarrow> string \<Rightarrow> bool" where
  "startsWith s [] = True"
| "startsWith [] (n # ns) = False"
| "startsWith (c # cs) (n # ns) = (c = n \<and> startsWith cs ns)"

fun includesStr :: "string \<Rightarrow> string \<Rightarrow> bool" where
  "includesStr [] needle = (needle = [])"
| "includesStr (c # cs) needle = (startsWith (c # cs) needle \<or> includesStr cs needle)"

section \<open>Field kinds\<close>

datatype PdfFieldKind = KText | KCheckbox | KRadio | KDropdown | KOptionlist | KUnknown

section \<open>Name resolution\<close>

text \<open>
  \<^verbatim>\<open>Array.prototype.find\<close> is \<^const>\<open>List.find\<close>. The resolvers test what it
  returns for truthiness (\<^verbatim>\<open>if (exact) return exact\<close>), and the empty string is
  falsy: a found name that is empty lets the code fall through to the next tier.
\<close>

definition truthy :: "string option \<Rightarrow> bool" where
  "truthy r = (case r of None \<Rightarrow> False | Some n \<Rightarrow> n \<noteq> [])"

text \<open>The resolver of the detect route (two arguments).\<close>

definition resolveFieldName_detect :: "string \<Rightarrow> string list \<Rightarrow> string option" where
  "resolveFieldName_detect requested available =
     (let normalizedRequested = normalize_str requested;
          exact = List.find (\<lambda>name. name = requested) available
      in if truthy exact then exact else
         let caseInsensitive =
               List.find (\<lambda>name. toLowerCase name = toLowerCase requested) available
         in if truthy caseInsensitive then caseInsensitive else
            let normalizedMatch =
                  List.find (\<lambda>name. normalize_str name = normalizedRequested) available
            in if truthy normalizedMatch then normalizedMatch else
               let contains =
                     List.find (\<lambda>name. includesStr (normalize_str name) normalizedRequested) available
               in if truthy contains then contains else None)"

text \<open>
  The resolver of the fill route (four arguments). \<^verbatim>\<open>kindMap.get(name) ?? "unknown"\<close>
  reads a \<^verbatim>\<open>Map\<close>, here a partial function.
\<close>

definition kindOf :: "(string \<rightharpoonup> PdfFieldKind) \<Rightarrow> string \<Rightarrow> PdfFieldKind" where
  "kindOf kindMap name = (case kindMap name of None \<Rightarrow> KUnknown | Some k \<Rightarrow> k)"

definition resolveFieldName :: "string \<Rightarrow> string list \<Rightarrow> (string \<rightharpoonup> PdfFieldKind) \<Rightarrow>
    PdfFieldKind list \<Rightarrow> string option" where
  "resolveFieldName requested available kindMap preferredKinds =
     (let normalizedRequested = normalize_str requested;
          exact = List.find (\<lambda>name. name = requested) available
      in if truthy exact then exact else
         let caseInsensitive =
               List.find (\<lambda>name. toLowerCase name = toLowerCase requested) available
         in if truthy caseInsensitive then caseInsensitive else
            let normalizedMatch =
                  List.find (\<lambda>name. normalize_str name = normalizedRequested) available
            in if truthy normalizedMatch then normalizedMatch else
               let contains =
                     filter (\<lambda>name. includesStr (normalize_str name) normalizedRequested) available
               in if length contains = 1 then Some (hd contains) else
                  if length contains > 1 \<and> preferredKinds \<noteq> [] then
                    (let kindMatch =
                           List.find (\<lambda>name. kindOf kindMap name \<in> set preferredKinds) contains
                     in if truthy kindMatch then kindMatch else None)
                  else None)"

text \<open>
  The resolver as section 4.3 of the specification words it, to compare the fill
  route's resolver with: four tiers in order, the first success wins. The candidates
  are tried in the order of the list; \<open>classify\<close> is the classified kind of a name.
\<close>

definition spec_resolve :: "string \<Rightarrow> string list \<Rightarrow> (string \<Rightarrow> PdfFieldKind) \<Rightarrow>
    PdfFieldKind list \<Rightarrow> string option" where
  "spec_resolve requested available classify preferred =
     (case List.find (\<lambda>c. c = requested) available of
        Some c \<Rightarrow> Some c
      | None \<Rightarrow>
     (case List.find (\<lambda>c. toLowerCase c = toLowerCase requested) available of
        Some c \<Rightarrow> Some c
      | None \<Rightarrow>
     (case List.find (\<lambda>c. normalize_str c = normalize_str requested) available of
        Some c \<Rightarrow> Some c
      | None \<Rightarrow>
     (case filter (\<lambda>c. includesStr (normalize_str c) (normalize_str requested)) available of
        [] \<Rightarrow> None
      | [c] \<Rightarrow> Some c
      | qualifying \<Rightarrow>
          if preferred \<noteq> [] then List.find (\<lambda>c. classify c \<in> set preferred) qualifying
          else None))))"

section \<open>Proposals and values\<close>

text \<open>
  A JavaScript number is modelled as a \<^typ>\<open>real\<close>: the finite values, with exact
  arithmetic. The interfaces of \<^verbatim>\<open>lib/types\<close>; \<^verbatim>\<open>fontScale\<close> is read by neither
  route and is left out.
\<close>

datatype FieldType = TText | TEmail | TNumber | TDate | TCheckbox | TRadio | TSelect

record FieldBBox =
  bb_page :: real
  bb_x :: real
  bb_y :: real
  bb_width :: "real option"
  bb_height :: "real option"

record DetectedField =
  f_name :: string
  f_label :: string
  f_type :: FieldType
  f_options :: "string list option"
  f_placeholder :: "string option"
  f_bbox :: "FieldBBox option"

text \<open>
  What the fill route reads as the value of a field: a string or a boolean of the
  payload, \<^verbatim>\<open>string | boolean\<close>, or, the values being a plain object, the member
  of \<^verbatim>\<open>Object.prototype\<close> of that name.
\<close>

datatype FieldValue = VString string | VBoolean bool | VInherited string


definition inheritedText :: "string \<Rightarrow> string" where
  "inheritedText name =
     (if name = ''__proto__'' then ''[object Object]''
      else ''function '' @ (if name = ''constructor'' then ''Object'' else name) @
           ''() { [native code] }'')"

section \<open>Overlay geometry\<close>

text \<open>
  A page of the document: what \<^verbatim>\<open>getWidth()\<close> and \<^verbatim>\<open>getHeight()\<close> return.
\<close>

record PdfPage =
  pg_width :: real
  pg_height :: real

text \<open>
  The page index of \<^verbatim>\<open>drawValueAtBBox\<close>: \<^verbatim>\<open>Math.round\<close> rounds to the nearest
  integer, a half upwards, as \<^const>\<open>round\<close> does. \<^verbatim>\<open>field.bbox.page ?? 0\<close> is
  the page itself, the interface declaring it a number.
\<close>

definition pageIndexOf :: "nat \<Rightarrow> real \<Rightarrow> int" where
  "pageIndexOf pagesLength p =
     (let pageIndex = round p;
          pageIndex = (if pageIndex \<ge> int pagesLength \<and> pageIndex > 0
                       then pageIndex - 1 else pageIndex)
      in max 0 (min (int pagesLength - 1) pageIndex))"

text \<open>
  The page selection as section 4.5 of the specification words it: zero-based; if out
  of range as a zero-based index while the page minus one is in range, one-based; the
  final index clamped.
\<close>

definition spec_pageIndex :: "nat \<Rightarrow> int \<Rightarrow> int" where
  "spec_pageIndex pageCount p =
     (let inRange = (\<lambda>i. 0 \<le> i \<and> i < int pageCount);
          q = (if \<not> inRange p \<and> inRange (p - 1) then p - 1 else p)
      in max 0 (min (int pageCount - 1) q))"

text \<open>
  \<^verbatim>\<open>(field.bbox.width ?? 0) <= 1\<close>: an absent width counts as 0.
\<close>

definition isNormalized :: "FieldBBox \<Rightarrow> bool" where
  "isNormalized b =
     (bb_x b \<le> 1 \<and> bb_y b \<le> 1 \<and>
      (case bb_width b of None \<Rightarrow> 0 | Some w \<Rightarrow> w) \<le> 1 \<and>
      (case bb_height b of None \<Rightarrow> 0 | Some h \<Rightarrow> h) \<le> 1)"

text \<open>
  The constants \<^verbatim>\<open>drawValueAtBBox\<close> computes from one box and the size of its page,
  one definition for each, in the order of the source.
\<close>

definition rawWidth :: "real \<Rightarrow> FieldBBox \<Rightarrow> real" where
  "rawWidth pageWidth b =
     (case bb_width b of
        Some w \<Rightarrow> w
      | None \<Rightarrow> if isNormalized b then 0.4 else pageWidth * 0.4)"

definition rawHeight :: "FieldBBox \<Rightarrow> real" where
  "rawHeight b =
     (case bb_height b of
        Some h \<Rightarrow> h
      | None \<Rightarrow> if isNormalized b then 0.04 else 24)"

definition boxWidth :: "real \<Rightarrow> FieldBBox \<Rightarrow> real" where
  "boxWidth pageWidth b =
     (if isNormalized b then rawWidth pageWidth b * pageWidth else rawWidth pageWidth b)"

definition boxHeight :: "real \<Rightarrow> FieldBBox \<Rightarrow> real" where
  "boxHeight pageHeight b =
     (if isNormalized b then rawHeight b * pageHeight else rawHeight b)"

definition boxX :: "real \<Rightarrow> FieldBBox \<Rightarrow> real" where
  "boxX pageWidth b =
     (if isNormalized b then max 0 (min 1 (bb_x b)) * pageWidth
      else max 0 (min (pageWidth - boxWidth pageWidth b) (bb_x b)))"

definition yFromTop :: "real \<Rightarrow> FieldBBox \<Rightarrow> real" where
  "yFromTop pageHeight b =
     (if isNormalized b then max 0 (min 1 (bb_y b)) * pageHeight
      else max 0 (min pageHeight (bb_y b)))"

definition padding :: "real \<Rightarrow> FieldBBox \<Rightarrow> real" where
  "padding pageHeight b = min 6 (boxHeight pageHeight b * 0.25)"

definition boxY :: "real \<Rightarrow> FieldBBox \<Rightarrow> real" where
  "boxY pageHeight b =
     min (pageHeight - padding pageHeight b)
       (max (padding pageHeight b)
          (pageHeight - yFromTop pageHeight b - boxHeight pageHeight b + padding pageHeight b))"

definition fontSize :: "real \<Rightarrow> FieldBBox \<Rightarrow> real" where
  "fontSize pageHeight b = min 16 (max 9 (boxHeight pageHeight b * 0.6))"

definition captionText :: "FieldValue \<Rightarrow> string" where
  "captionText v =
     (case v of
        VBoolean b \<Rightarrow> (if b then ''Yes'' else ''No'')
      | VString s \<Rightarrow> s
      | VInherited name \<Rightarrow> inheritedText name)"

text \<open>The call \<^verbatim>\<open>page.drawText(text, {x, y, size, color})\<close>, the colour always black.\<close>

record DrawText =
  dt_page :: nat
  dt_text :: string
  dt_x :: real
  dt_y :: real
  dt_size :: real

text \<open>
  \<^verbatim>\<open>drawValueAtBBox\<close> returns without drawing when the field has no box and when
  \<^verbatim>\<open>pages[pageIndex]\<close> is undefined, which is when the document has no page.
\<close>

definition drawValueAtBBox :: "PdfPage list \<Rightarrow> FieldBBox option \<Rightarrow> FieldValue \<Rightarrow> DrawText option" where
  "drawValueAtBBox pages bbox v =
     (case bbox of
        None \<Rightarrow> None
      | Some b \<Rightarrow>
          let pageIndex = nat (pageIndexOf (length pages) (bb_page b))
          in if pageIndex \<ge> length pages then None
             else
               let pg = pages ! pageIndex;
                   pageWidth = pg_width pg;
                   pageHeight = pg_height pg
               in Some \<lparr>dt_page = pageIndex,
                         dt_text = captionText v,
                         dt_x = min (pageWidth - 4) (max 2 (boxX pageWidth b + 2)),
                         dt_y = max 2 (boxY pageHeight b),
                         dt_size = fontSize pageHeight b\<rparr>)"

section \<open>Detection response validator\<close>

text \<open>
  What \<^verbatim>\<open>JSON.parse\<close> returns: a JSON value. An object is the list of its own
  properties, each key once.
\<close>

datatype json =
    JNull
  | JBool bool
  | JNum real
  | JStr string
  | JArr "json list"
  | JObj "(string \<times> json) list"

datatype js_error = SyntaxError | TypeError

text \<open>
  The two functions of the JavaScript runtime that the validator calls and that are
  taken as parameters: \<^verbatim>\<open>JSON.parse\<close>, which returns a value or throws a
  \<^verbatim>\<open>SyntaxError\<close>, and the conversion of a number to a string.
\<close>

record runtime =
  JSON_parse :: "string \<Rightarrow> js_error + json"
  Number_toString :: "real \<Rightarrow> string"

definition andThen :: "'e + 'a \<Rightarrow> ('a \<Rightarrow> 'e + 'b) \<Rightarrow> 'e + 'b" where
  "andThen r f = (case r of Inl e \<Rightarrow> Inl e | Inr v \<Rightarrow> f v)"

text \<open>\<^verbatim>\<open>try { body } catch (error) { handler }\<close>.\<close>

definition tryCatch :: "'e + 'a \<Rightarrow> ('e \<Rightarrow> 'e + 'a) \<Rightarrow> 'e + 'a" where
  "tryCatch body handler = (case body of Inl e \<Rightarrow> handler e | Inr v \<Rightarrow> Inr v)"

text \<open>
  White space as \<^verbatim>\<open>\s\<close> and \<^verbatim>\<open>trim\<close> see it, among the code units 0 to 255: tab,
  line feed, vertical tab, form feed, carriage return, space, no-break space.
\<close>

definition isWhiteSpace :: "char \<Rightarrow> bool" where
  "isWhiteSpace c = (let n = (of_char c :: nat) in (9 \<le> n \<and> n \<le> 13) \<or> n = 32 \<or> n = 160)"

definition trim :: "string \<Rightarrow> string" where
  "trim s = rev (dropWhile isWhiteSpace (rev (dropWhile isWhiteSpace s)))"

text \<open>
  \<^verbatim>\<open>raw.match(/```json\s*([\s\S]*?)```/i)?.[1] ?? raw\<close>. The match starts at the
  leftmost position where the opening fence stands and a closing fence follows; the
  group is the text after the white space, up to the first closing fence.
\<close>

fun untilFence :: "string \<Rightarrow> string option" where
  "untilFence [] = None"
| "untilFence (c # cs) =
     (if startsWith (c # cs) ''```'' then Some []
      else map_option ((#) c) (untilFence cs))"

definition fenceAt :: "string \<Rightarrow> string option" where
  "fenceAt s =
     (if length s \<ge> 7 \<and> toLowerCase (take 7 s) = ''```json''
      then untilFence (dropWhile isWhiteSpace (drop 7 s))
      else None)"

fun matchFence :: "string \<Rightarrow> string option" where
  "matchFence [] = None"
| "matchFence (c # cs) =
     (case fenceAt (c # cs) of Some inner \<Rightarrow> Some inner | None \<Rightarrow> matchFence cs)"

definition jsonBlock :: "string \<Rightarrow> string" where
  "jsonBlock raw = (case matchFence raw of Some inner \<Rightarrow> inner | None \<Rightarrow> raw)"

text \<open>
  Reading a property. The validator reads \<^verbatim>\<open>name\<close>, \<^verbatim>\<open>label\<close>, \<^verbatim>\<open>type\<close>,
  \<^verbatim>\<open>placeholder\<close>, \<^verbatim>\<open>options\<close>, \<^verbatim>\<open>bbox\<close>, \<^verbatim>\<open>fields\<close>, \<^verbatim>\<open>title\<close> and the five
  keys of a box: an object has them as own properties or not at all, no other value has
  them, and reading a property of \<^verbatim>\<open>null\<close> throws a \<^verbatim>\<open>TypeError\<close>. \<open>None\<close> is
  \<^verbatim>\<open>undefined\<close>.
\<close>

definition getProp :: "json \<Rightarrow> string \<Rightarrow> js_error + json option" where
  "getProp v key =
     (case v of
        JNull \<Rightarrow> Inl TypeError
      | JObj kvs \<Rightarrow> Inr (map_of kvs key)
      | _ \<Rightarrow> Inr None)"

text \<open>\<^verbatim>\<open>payload?.key\<close>: \<^verbatim>\<open>undefined\<close> on \<^verbatim>\<open>null\<close>.\<close>

definition getPropOpt :: "json \<Rightarrow> string \<Rightarrow> json option" where
  "getPropOpt v key = (case v of JObj kvs \<Rightarrow> map_of kvs key | _ \<Rightarrow> None)"

text \<open>\<^verbatim>\<open>a ?? b\<close>: \<open>b\<close> when \<open>a\<close> is \<^verbatim>\<open>undefined\<close> or \<^verbatim>\<open>null\<close>.\<close>

definition nullish :: "json option \<Rightarrow> json option \<Rightarrow> json option" where
  "nullish a b = (case a of None \<Rightarrow> b | Some JNull \<Rightarrow> b | Some v \<Rightarrow> Some v)"

definition truthyValue :: "json option \<Rightarrow> bool" where
  "truthyValue a =
     (case a of
        None \<Rightarrow> False
      | Some JNull \<Rightarrow> False
      | Some (JBool b) \<Rightarrow> b
      | Some (JNum r) \<Rightarrow> r \<noteq> 0
      | Some (JStr t) \<Rightarrow> t \<noteq> []
      | Some (JArr _) \<Rightarrow> True
      | Some (JObj _) \<Rightarrow> True)"

text \<open>
  \<^verbatim>\<open>String(value)\<close>. An array is its elements joined by commas, \<^verbatim>\<open>null\<close> among
  them giving the empty string. An object is \<^verbatim>\<open>[object Object]\<close>, unless it has an
  own property \<^verbatim>\<open>toString\<close>, which is no function: then the conversion throws a
  \<^verbatim>\<open>TypeError\<close>.
\<close>

fun joinResults :: "(js_error + string) list \<Rightarrow> js_error + string" where
  "joinResults [] = Inr []"
| "joinResults [r] = r"
| "joinResults (r # rs) =
     (case r of
        Inl e \<Rightarrow> Inl e
      | Inr t \<Rightarrow> (case joinResults rs of Inl e \<Rightarrow> Inl e | Inr u \<Rightarrow> Inr (t @ '','' @ u)))"

fun String_of :: "(real \<Rightarrow> string) \<Rightarrow> json \<Rightarrow> js_error + string" where
  "String_of nts JNull = Inr ''null''"
| "String_of nts (JBool b) = Inr (if b then ''true'' else ''false'')"
| "String_of nts (JNum r) = Inr (nts r)"
| "String_of nts (JStr t) = Inr t"
| "String_of nts (JArr xs) =
     joinResults (map (\<lambda>x. if x = JNull then Inr [] else String_of nts x) xs)"
| "String_of nts (JObj kvs) =
     (if ''toString'' \<in> set (map fst kvs) then Inl TypeError else Inr ''[object Object]'')"

text \<open>\<^verbatim>\<open>String(a ?? "")\<close>, for a value that may be \<^verbatim>\<open>undefined\<close>.\<close>

definition String_or_empty :: "(real \<Rightarrow> string) \<Rightarrow> json option \<Rightarrow> js_error + string" where
  "String_or_empty nts a =
     (case nullish a (Some (JStr [])) of None \<Rightarrow> Inr [] | Some v \<Rightarrow> String_of nts v)"

definition allowedTypes :: "(string \<times> FieldType) list" where
  "allowedTypes =
     [(''text'', TText), (''email'', TEmail), (''number'', TNumber), (''date'', TDate),
      (''checkbox'', TCheckbox), (''radio'', TRadio), (''select'', TSelect)]"

definition numberOrUndefined :: "json option \<Rightarrow> real option" where
  "numberOrUndefined a = (case a of Some (JNum r) \<Rightarrow> Some r | _ \<Rightarrow> None)"

text \<open>
  The \<^verbatim>\<open>bbox\<close> of an entry: kept when it is truthy, an object, and has numbers for
  \<^verbatim>\<open>page\<close>, \<^verbatim>\<open>x\<close> and \<^verbatim>\<open>y\<close>. An array is an object with none of the three.
\<close>

definition coerceBBox :: "json option \<Rightarrow> FieldBBox option" where
  "coerceBBox a =
     (case a of
        Some (JObj kvs) \<Rightarrow>
          (case (map_of kvs ''page'', map_of kvs ''x'', map_of kvs ''y'') of
             (Some (JNum p), Some (JNum x), Some (JNum y)) \<Rightarrow>
               Some \<lparr>bb_page = p, bb_x = x, bb_y = y,
                     bb_width = numberOrUndefined (map_of kvs ''width''),
                     bb_height = numberOrUndefined (map_of kvs ''height'')\<rparr>
           | _ \<Rightarrow> None)
      | _ \<Rightarrow> None)"

text \<open>
  \<^verbatim>\<open>item.options.map((opt) => String(opt))\<close>; the first conversion that throws
  ends the whole \<^verbatim>\<open>map\<close>.
\<close>

fun mapE :: "('a \<Rightarrow> js_error + 'b) \<Rightarrow> 'a list \<Rightarrow> js_error + 'b list" where
  "mapE f [] = Inr []"
| "mapE f (x # xs) =
     (case f x of
        Inl e \<Rightarrow> Inl e
      | Inr y \<Rightarrow> (case mapE f xs of Inl e \<Rightarrow> Inl e | Inr ys \<Rightarrow> Inr (y # ys)))"

text \<open>The callback of \<^verbatim>\<open>fieldsRaw.map\<close>: one raw entry to one field.\<close>

definition coerceField :: "(real \<Rightarrow> string) \<Rightarrow> json \<Rightarrow> js_error + DetectedField" where
  "coerceField nts item =
     andThen (getProp item ''name'') (\<lambda>nameP.
     andThen (String_or_empty nts nameP) (\<lambda>nameS.
     andThen (getProp item ''label'') (\<lambda>labelP.
     andThen (String_or_empty nts (nullish labelP nameP)) (\<lambda>labelS.
     andThen (getProp item ''type'') (\<lambda>typeP.
     andThen (String_or_empty nts typeP) (\<lambda>typeS.
     andThen (getProp item ''placeholder'') (\<lambda>placeholderP.
     andThen (if truthyValue placeholderP
              then map_sum id Some (String_or_empty nts placeholderP)
              else Inr None) (\<lambda>placeholderS.
     andThen (getProp item ''options'') (\<lambda>optionsP.
     andThen (case optionsP of
                Some (JArr opts) \<Rightarrow> map_sum id Some (mapE (String_of nts) opts)
              | _ \<Rightarrow> Inr None) (\<lambda>optionsS.
     andThen (getProp item ''bbox'') (\<lambda>bboxP.
       Inr \<lparr>f_name = trim nameS,
            f_label = trim labelS,
            f_type = (case map_of allowedTypes (toLowerCase typeS) of
                        Some t \<Rightarrow> t | None \<Rightarrow> TText),
            f_options = optionsS,
            f_placeholder = placeholderS,
            f_bbox = coerceBBox bboxP\<rparr>)))))))))))"

record DetectionResponse =
  dr_fields :: "DetectedField list"
  dr_title :: "string option"

text \<open>
  \<^verbatim>\<open>const payload = Array.isArray(parsed) ? { fields: parsed } : parsed\<close> and
  \<^verbatim>\<open>const fieldsRaw = Array.isArray(payload?.fields) ? payload.fields : []\<close>.
\<close>

definition payloadOf :: "json \<Rightarrow> json" where
  "payloadOf parsed = (case parsed of JArr xs \<Rightarrow> JObj [(''fields'', JArr xs)] | _ \<Rightarrow> parsed)"

definition fieldsRaw :: "json \<Rightarrow> json list" where
  "fieldsRaw payload = (case getPropOpt payload ''fields'' of Some (JArr xs) \<Rightarrow> xs | _ \<Rightarrow> [])"

definition titleOf :: "json \<Rightarrow> string option" where
  "titleOf payload =
     (case getPropOpt payload ''title'' of
        Some (JStr t) \<Rightarrow> if length (trim t) > 0 then Some (trim t) else None
      | _ \<Rightarrow> None)"

text \<open>The body of the \<^verbatim>\<open>try\<close> block, after \<^verbatim>\<open>JSON.parse\<close> returned.\<close>

definition validate :: "runtime \<Rightarrow> json \<Rightarrow> js_error + DetectionResponse" where
  "validate rt parsed =
     (let payload = payloadOf parsed
      in andThen (mapE (coerceField (Number_toString rt)) (fieldsRaw payload)) (\<lambda>mapped.
           Inr \<lparr>dr_fields = filter (\<lambda>f. f_name f \<noteq> [] \<and> f_label f \<noteq> []) mapped,
                dr_title = titleOf payload\<rparr>))"

text \<open>
  \<^verbatim>\<open>parseResponse\<close>. \<open>Inl\<close> would be an exception leaving the function.
\<close>

definition parseResponse :: "runtime \<Rightarrow> string \<Rightarrow> js_error + DetectionResponse" where
  "parseResponse rt raw =
     tryCatch (andThen (JSON_parse rt (jsonBlock raw)) (validate rt))
       (\<lambda>error. Inr \<lparr>dr_fields = [], dr_title = None\<rparr>)"

text \<open>The entries of the \<^verbatim>\<open>fields\<close> array of a payload, none when it does not parse.\<close>

definition rawEntries :: "runtime \<Rightarrow> string \<Rightarrow> json list" where
  "rawEntries rt raw =
     (case JSON_parse rt (jsonBlock raw) of
        Inl e \<Rightarrow> []
      | Inr parsed \<Rightarrow> fieldsRaw (payloadOf parsed))"

section \<open>The document\<close>

text \<open>
  The document library is outside the repository. Of a loaded document the routes use
  the form's fields, each with a name and a widget, and the pages. A typed accessor
  such as \<^verbatim>\<open>form.getTextField(name)\<close> returns the field of that name when it is of
  that type and throws otherwise; \<open>None\<close> is the throw.
\<close>

datatype PdfWidget =
    WText
  | WCheckBox
  | WRadioGroup "string list"
  | WDropdown "string list"
  | WOptionList "string list"
  | WOther










section \<open>The fill route\<close>
















section \<open>The detect route\<close>




section \<open>The fill route on a document without form fields\<close>



section \<open>Overlay geometry on doubles\<close>

text \<open>
  The numbers of the source are doubles: a product or a difference is rounded to the
  nearest double, and a decimal literal denotes the double nearest to it; a comparison,
  a maximum and a minimum are exact. Below, the four constants of
  \<^verbatim>\<open>drawValueAtBBox\<close> that place the rectangle are computed with a rounding \<open>rnd\<close>
  applied where the source rounds. The rounding of doubles is monotone and leaves a
  double as it is; the statements about these constants assume that much of \<open>rnd\<close>.
\<close>

definition rawWidth_fl :: "(real \<Rightarrow> real) \<Rightarrow> real \<Rightarrow> FieldBBox \<Rightarrow> real" where
  "rawWidth_fl rnd pageWidth b =
     (case bb_width b of
        Some w \<Rightarrow> w
      | None \<Rightarrow> if isNormalized b then rnd 0.4 else rnd (pageWidth * rnd 0.4))"

definition boxWidth_fl :: "(real \<Rightarrow> real) \<Rightarrow> real \<Rightarrow> FieldBBox \<Rightarrow> real" where
  "boxWidth_fl rnd pageWidth b =
     (if isNormalized b then rnd (rawWidth_fl rnd pageWidth b * pageWidth)
      else rawWidth_fl rnd pageWidth b)"

definition boxX_fl :: "(real \<Rightarrow> real) \<Rightarrow> real \<Rightarrow> FieldBBox \<Rightarrow> real" where
  "boxX_fl rnd pageWidth b =
     (if isNormalized b then rnd (max 0 (min 1 (bb_x b)) * pageWidth)
      else max 0 (min (rnd (pageWidth - boxWidth_fl rnd pageWidth b)) (bb_x b)))"

definition yFromTop_fl :: "(real \<Rightarrow> real) \<Rightarrow> real \<Rightarrow> FieldBBox \<Rightarrow> real" where
  "yFromTop_fl rnd pageHeight b =
     (if isNormalized b then rnd (max 0 (min 1 (bb_y b)) * pageHeight)
      else max 0 (min pageHeight (bb_y b)))"

text \<open>
  A rounding for the examples, to the nearest eighth: monotone, and leaving every
  multiple of an eighth as it is.
\<close>

definition roundToEighth :: "real \<Rightarrow> real" where
  "roundToEighth r = real_of_int (round (r * 8)) / 8"

section \<open>A reader of JSON texts\<close>

text \<open>
  The theorems about the validator hold for every runtime. To run the validator on a
  text, the examples use the reader below in the place of \<^verbatim>\<open>JSON.parse\<close>: the JSON
  grammar on the code units 0 to 255 (an escape \<^verbatim>\<open>\uXXXX\<close> above 255 is refused), a
  number read as the rational it denotes, a repeated key keeping its last value. The
  recursion is on a count of the nested calls still allowed, which the length of the
  text bounds.
\<close>

definition isJsonSpace :: "char \<Rightarrow> bool" where
  "isJsonSpace c = (c = CHR '' '' \<or> c = CHR 0x09 \<or> c = CHR 0x0A \<or> c = CHR 0x0D)"

definition isDigit :: "char \<Rightarrow> bool" where
  "isDigit c = (let n = (of_char c :: nat) in 48 \<le> n \<and> n \<le> 57)"

definition digitsValue :: "string \<Rightarrow> nat" where
  "digitsValue ds = foldl (\<lambda>acc c. 10 * acc + (of_char c - 48)) 0 ds"

definition hexValue :: "char \<Rightarrow> nat option" where
  "hexValue c =
     (let n = (of_char c :: nat)
      in if 48 \<le> n \<and> n \<le> 57 then Some (n - 48)
         else if 65 \<le> n \<and> n \<le> 70 then Some (n - 55)
         else if 97 \<le> n \<and> n \<le> 102 then Some (n - 87)
         else None)"

definition escapeChar :: "char \<Rightarrow> char option" where
  "escapeChar e =
     (if e = CHR 0x22 then Some (CHR 0x22)
      else if e = CHR 0x5C then Some (CHR 0x5C)
      else if e = CHR ''/'' then Some (CHR ''/'')
      else if e = CHR ''b'' then Some (CHR 0x08)
      else if e = CHR ''f'' then Some (CHR 0x0C)
      else if e = CHR ''n'' then Some (CHR 0x0A)
      else if e = CHR ''r'' then Some (CHR 0x0D)
      else if e = CHR ''t'' then Some (CHR 0x09)
      else None)"

text \<open>The characters of a string, after its opening quote, and the rest of the text.\<close>

fun readChars :: "string \<Rightarrow> (string \<times> string) option" where
  "readChars [] = None"
| "readChars (c # cs) =
     (if c = CHR 0x22 then Some ([], cs)
      else if c = CHR 0x5C then
        (case cs of
           [] \<Rightarrow> None
         | e # rest \<Rightarrow>
             if e = CHR ''u'' then
               (case rest of
                  h1 # h2 # h3 # h4 # rest' \<Rightarrow>
                    (case (hexValue h1, hexValue h2, hexValue h3, hexValue h4) of
                       (Some a, Some b, Some c', Some d) \<Rightarrow>
                         (let code = ((a * 16 + b) * 16 + c') * 16 + d
                          in if code < 256
                             then map_option (apfst ((#) (char_of code))) (readChars rest')
                             else None)
                     | _ \<Rightarrow> None)
                | _ \<Rightarrow> None)
             else
               (case escapeChar e of
                  Some ch \<Rightarrow> map_option (apfst ((#) ch)) (readChars rest)
                | None \<Rightarrow> None))
      else if (of_char c :: nat) < 32 then None
      else map_option (apfst ((#) c)) (readChars cs))"

text \<open>
  A number: an optional minus, an integer part without a leading zero, an optional
  fraction, an optional exponent.
\<close>

definition readExponent :: "string \<Rightarrow> (int \<times> string) option" where
  "readExponent s =
     (case s of
        [] \<Rightarrow> Some (0, [])
      | c # cs \<Rightarrow>
          if c = CHR ''e'' \<or> c = CHR ''E'' then
            (let neg = (cs \<noteq> [] \<and> hd cs = CHR ''-'');
                 cs' = (if cs \<noteq> [] \<and> (hd cs = CHR ''-'' \<or> hd cs = CHR ''+'') then tl cs else cs);
                 ds = takeWhile isDigit cs'
             in if ds = [] then None
                else Some ((if neg then - int (digitsValue ds) else int (digitsValue ds)),
                           dropWhile isDigit cs'))
          else Some (0, c # cs))"

definition readFraction :: "string \<Rightarrow> (real \<times> string) option" where
  "readFraction s =
     (case s of
        [] \<Rightarrow> Some (0, [])
      | c # cs \<Rightarrow>
          if c = CHR ''.'' then
            (let ds = takeWhile isDigit cs
             in if ds = [] then None
                else Some (real (digitsValue ds) / 10 ^ length ds, dropWhile isDigit cs))
          else Some (0, c # cs))"

definition readNumber :: "string \<Rightarrow> (json \<times> string) option" where
  "readNumber s =
     (let neg = (s \<noteq> [] \<and> hd s = CHR ''-'');
          s1 = (if neg then tl s else s);
          ds = takeWhile isDigit s1
      in if ds = [] \<or> (length ds > 1 \<and> hd ds = CHR ''0'') then None
         else
           (case readFraction (dropWhile isDigit s1) of
              None \<Rightarrow> None
            | Some (fr, s2) \<Rightarrow>
                (case readExponent s2 of
                   None \<Rightarrow> None
                 | Some (ex, s3) \<Rightarrow>
                     (let m = real (digitsValue ds) + fr;
                          v = (if ex \<ge> 0 then m * 10 ^ nat ex else m / 10 ^ nat (- ex))
                      in Some (JNum (if neg then - v else v), s3)))))"

fun readValue :: "nat \<Rightarrow> string \<Rightarrow> (json \<times> string) option"
and readElements :: "nat \<Rightarrow> json list \<Rightarrow> string \<Rightarrow> (json \<times> string) option"
and readMembers :: "nat \<Rightarrow> (string \<times> json) list \<Rightarrow> string \<Rightarrow> (json \<times> string) option" where
  "readValue 0 s = None"
| "readValue (Suc n) s =
     (case dropWhile isJsonSpace s of
        [] \<Rightarrow> None
      | c # cs \<Rightarrow>
          if c = CHR ''{'' then
            (case dropWhile isJsonSpace cs of
               [] \<Rightarrow> None
             | d # ds \<Rightarrow> if d = CHR ''}'' then Some (JObj [], ds) else readMembers n [] (d # ds))
          else if c = CHR ''['' then
            (case dropWhile isJsonSpace cs of
               [] \<Rightarrow> None
             | d # ds \<Rightarrow> if d = CHR '']'' then Some (JArr [], ds) else readElements n [] (d # ds))
          else if c = CHR 0x22 then map_option (apfst JStr) (readChars cs)
          else if startsWith (c # cs) ''true'' then Some (JBool True, drop 4 (c # cs))
          else if startsWith (c # cs) ''false'' then Some (JBool False, drop 5 (c # cs))
          else if startsWith (c # cs) ''null'' then Some (JNull, drop 4 (c # cs))
          else readNumber (c # cs))"
| "readElements 0 acc s = None"
| "readElements (Suc n) acc s =
     (case readValue n s of
        None \<Rightarrow> None
      | Some (v, r) \<Rightarrow>
          (case dropWhile isJsonSpace r of
             [] \<Rightarrow> None
           | d # ds \<Rightarrow>
               if d = CHR '','' then readElements n (acc @ [v]) ds
               else if d = CHR '']'' then Some (JArr (acc @ [v]), ds)
               else None))"
| "readMembers 0 acc s = None"
| "readMembers (Suc n) acc s =
     (case dropWhile isJsonSpace s of
        [] \<Rightarrow> None
      | q # qs \<Rightarrow>
          if q \<noteq> CHR 0x22 then None
          else
            (case readChars qs of
               None \<Rightarrow> None
             | Some (key, r) \<Rightarrow>
                 (case dropWhile isJsonSpace r of
                    [] \<Rightarrow> None
                  | col # r1 \<Rightarrow>
                      if col \<noteq> CHR '':'' then None
                      else
                        (case readValue n r1 of
                           None \<Rightarrow> None
                         | Some (v, r2) \<Rightarrow>
                             (case dropWhile isJsonSpace r2 of
                                [] \<Rightarrow> None
                              | d # ds \<Rightarrow>
                                  if d = CHR '','' then readMembers n (AList.update key v acc) ds
                                  else if d = CHR ''}'' then Some (JObj (AList.update key v acc), ds)
                                  else None)))))"

definition readJSON :: "string \<Rightarrow> js_error + json" where
  "readJSON s =
     (case readValue (Suc (length s)) s of
        None \<Rightarrow> Inl SyntaxError
      | Some (v, r) \<Rightarrow> if dropWhile isJsonSpace r = [] then Inr v else Inl SyntaxError)"

text \<open>
  The decimal digits of an integer, as the runtime prints an integer below
  \<open>10\<^sup>2\<^sup>1\<close> in magnitude; the examples convert no other number.
\<close>

fun digitsOf :: "nat \<Rightarrow> nat \<Rightarrow> string" where
  "digitsOf 0 n = []"
| "digitsOf (Suc k) n =
     (if n < 10 then [char_of (48 + n)]
      else digitsOf k (n div 10) @ [char_of (48 + n mod 10)])"

definition integerToString :: "real \<Rightarrow> string" where
  "integerToString r =
     (let i = \<lfloor>r\<rfloor>
      in (if i < 0 then ''-'' else []) @ digitsOf 22 (nat \<bar>i\<bar>))"

definition exampleRuntime :: runtime where
  "exampleRuntime = \<lparr>JSON_parse = readJSON, Number_toString = integerToString\<rparr>"



section \<open>The normalizer is idempotent\<close>

lemma toLowerChar_fixes_alnum: "isLowerAlnum c \<Longrightarrow> toLowerChar c = c"
  by (auto simp: isLowerAlnum_def toLowerChar_def Let_def)

lemma toLowerCase_fixes_alnum: "\<forall>c \<in> set s. isLowerAlnum c \<Longrightarrow> toLowerCase s = s"
  unfolding toLowerCase_def
  by (induction s) (simp_all add: toLowerChar_fixes_alnum)

text \<open>
  Claim C10. For every string \<open>s\<close>, normalizing the normalized form of \<open>s\<close> gives the
  normalized form of \<open>s\<close> again, where normalizing lower-cases the string and removes
  every character outside a-z and 0-9.
\<close>

theorem normalize_idempotent: "normalize_str (normalize_str s) = normalize_str s"
proof -
  have alnum: "\<forall>c \<in> set (normalize_str s). isLowerAlnum c"
    by (simp add: normalize_str_def)
  have "toLowerCase (normalize_str s) = normalize_str s"
    using alnum by (rule toLowerCase_fixes_alnum)
  then have "normalize_str (normalize_str s) = filter isLowerAlnum (normalize_str s)"
    by (simp add: normalize_str_def)
  also have "\<dots> = normalize_str s"
    using alnum by (simp add: filter_id_conv)
  finally show ?thesis .
qed

section \<open>Substring test\<close>

lemma startsWith_iff: "startsWith s n \<longleftrightarrow> (\<exists>r. s = n @ r)"
  by (induction s n rule: startsWith.induct) auto

lemma includesStr_iff: "includesStr s n \<longleftrightarrow> (\<exists>p r. s = p @ n @ r)"
proof (induction s)
  case Nil
  then show ?case by simp
next
  case (Cons c cs)
  show ?case
  proof
    assume "includesStr (c # cs) n"
    then consider "startsWith (c # cs) n" | "includesStr cs n" by auto
    then show "\<exists>p r. c # cs = p @ n @ r"
    proof cases
      case 1
      then obtain r where "c # cs = n @ r" by (auto simp: startsWith_iff)
      then have "c # cs = [] @ n @ r" by simp
      then show ?thesis by blast
    next
      case 2
      then obtain p r where "cs = p @ n @ r" using Cons.IH by blast
      then have "c # cs = (c # p) @ n @ r" by simp
      then show ?thesis by blast
    qed
  next
    assume "\<exists>p r. c # cs = p @ n @ r"
    then obtain p r where eq: "c # cs = p @ n @ r" by blast
    show "includesStr (c # cs) n"
    proof (cases p)
      case Nil
      then have "startsWith (c # cs) n" using eq by (auto simp: startsWith_iff)
      then show ?thesis by simp
    next
      case (Cons a p')
      then have "cs = p' @ n @ r" using eq by simp
      then have "includesStr cs n" using Cons.IH by blast
      then show ?thesis by simp
    qed
  qed
qed

section \<open>The resolvers\<close>

lemma find_Some_mem: "List.find P xs = Some x \<Longrightarrow> x \<in> set xs \<and> P x"
  by (induction xs) (auto split: if_splits)

lemma truthy_find: "[] \<notin> set xs \<Longrightarrow> truthy (List.find P xs) \<longleftrightarrow> List.find P xs \<noteq> None"
  by (cases "List.find P xs") (auto simp: truthy_def dest: find_Some_mem)

lemma truthy_find_filter:
  "[] \<notin> set xs \<Longrightarrow> truthy (List.find P (filter Q xs)) \<longleftrightarrow> List.find P (filter Q xs) \<noteq> None"
  by (rule truthy_find) simp

lemma find_as_filter: "List.find P xs = (case filter P xs of [] \<Rightarrow> None | x # _ \<Rightarrow> Some x)"
  by (induction xs) auto

text \<open>
  Claim C3, as stated: for every requested name, list of available names, kind map and
  preferred-kind list, the fill route's resolver returns the result of the four-tier
  reference algorithm. It fails where an available name is the empty string: the
  requested name \<open>-\<close> normalizes to the empty string, the third tier finds the empty
  name, the code tests it for truthiness and goes on to the containment tier, which is
  ambiguous.
\<close>

theorem resolveFieldName_empty_name_counterexample:
  "resolveFieldName ''-'' ['''', ''x''] Map.empty [] = None \<and>
   spec_resolve ''-'' ['''', ''x''] (kindOf Map.empty) [] = Some ''''"
  by code_simp

text \<open>
  Claim C3, amended: for every requested name, every list of available names none of
  which is the empty string, every kind map and every preferred-kind list, the fill
  route's resolver returns exactly the result of the four-tier reference algorithm
  (exact equality, case-insensitive equality, normalized equality, normalized
  containment with a unique candidate accepted and several candidates tie-broken by the
  first whose kind is preferred); requested \<open>phone\<close> against \<open>phone_home\<close> and
  \<open>phone_work\<close> with no preferred kind is no match.
\<close>

theorem resolveFieldName_refines_spec:
  "([] \<notin> set available \<longrightarrow>
      resolveFieldName requested available kindMap preferredKinds =
      spec_resolve requested available (kindOf kindMap) preferredKinds) \<and>
   resolveFieldName ''phone'' [''phone_home'', ''phone_work''] kindMap [] = None"
proof
  show "[] \<notin> set available \<longrightarrow>
      resolveFieldName requested available kindMap preferredKinds =
      spec_resolve requested available (kindOf kindMap) preferredKinds"
    by (auto simp add: resolveFieldName_def spec_resolve_def Let_def truthy_find
        truthy_find_filter split: option.splits list.splits)
  show "resolveFieldName ''phone'' [''phone_home'', ''phone_work''] kindMap [] = None"
    by code_simp
qed

theorem resolveFieldName_refines_spec_witness:
  "[] \<notin> set [''Full_Name'', ''Email''] \<and>
   resolveFieldName ''full name'' [''Full_Name'', ''Email''] Map.empty [KCheckbox] =
     spec_resolve ''full name'' [''Full_Name'', ''Email''] (kindOf Map.empty) [KCheckbox] \<and>
   spec_resolve ''full name'' [''Full_Name'', ''Email''] (kindOf Map.empty) [KCheckbox] =
     Some ''Full_Name''"
proof -
  have h: "[] \<notin> set [''Full_Name'', ''Email'']" by simp
  have v: "spec_resolve ''full name'' [''Full_Name'', ''Email''] (kindOf Map.empty) [KCheckbox] =
      Some ''Full_Name''"
    by code_simp
  from resolveFieldName_refines_spec
    [where available = "[''Full_Name'', ''Email'']" and requested = "''full name''"
       and kindMap = Map.empty and preferredKinds = "[KCheckbox]"]
  show ?thesis using h v by blast
qed

text \<open>
  Claim C4, as stated: the detect route's resolver and the fill route's resolver with
  an empty preferred-kind list compute the same result for every requested name and
  every list of available names. It fails under ambiguous containment: the detect
  route takes the first containing candidate, the fill route reports no match.
\<close>

theorem resolvers_differ_counterexample:
  "resolveFieldName_detect ''phone'' [''phone_home'', ''phone_work''] = Some ''phone_home'' \<and>
   resolveFieldName ''phone'' [''phone_home'', ''phone_work''] Map.empty [] = None"
  by code_simp

text \<open>
  Claim C4, amended: for every requested name and every list of available names none
  of which is the empty string, whenever the fill route's resolver (with an empty
  preferred-kind list) reports a name the detect route's resolver reports the same
  name, and whenever the fill route's resolver reports no match the detect route's
  resolver reports the first available name whose normalized form contains the
  normalized requested name, if there is one. So the two agree whenever at most one
  available name contains the requested one.
\<close>

theorem resolvers_agree_unless_ambiguous:
  "[] \<notin> set available \<longrightarrow>
     resolveFieldName_detect requested available =
       (case resolveFieldName requested available kindMap [] of
          Some n \<Rightarrow> Some n
        | None \<Rightarrow>
            List.find (\<lambda>name. includesStr (normalize_str name) (normalize_str requested))
              available) \<and>
     (length (filter (\<lambda>name. includesStr (normalize_str name) (normalize_str requested))
         available) \<le> 1 \<longrightarrow>
      resolveFieldName_detect requested available =
        resolveFieldName requested available kindMap [])"
proof
  assume ne: "[] \<notin> set available"
  let ?C = "\<lambda>name. includesStr (normalize_str name) (normalize_str requested)"
  let ?T = "\<lambda>rest. case List.find (\<lambda>name. name = requested) available of
        Some n \<Rightarrow> Some n
      | None \<Rightarrow>
     (case List.find (\<lambda>name. toLowerCase name = toLowerCase requested) available of
        Some n \<Rightarrow> Some n
      | None \<Rightarrow>
     (case List.find (\<lambda>name. normalize_str name = normalize_str requested) available of
        Some n \<Rightarrow> Some n
      | None \<Rightarrow> rest))"
  have t: "truthy (List.find P available) \<longleftrightarrow> List.find P available \<noteq> None" for P
    using ne by (rule truthy_find)
  have d: "resolveFieldName_detect requested available = ?T (List.find ?C available)"
    by (auto simp add: resolveFieldName_detect_def Let_def t split: option.splits)
  have f: "resolveFieldName requested available kindMap [] =
      ?T (case filter ?C available of [x] \<Rightarrow> Some x | _ \<Rightarrow> None)"
    by (auto simp add: resolveFieldName_def Let_def t split: option.splits list.splits)
  have first: "List.find ?C available =
      (case filter ?C available of [] \<Rightarrow> None | x # _ \<Rightarrow> Some x)"
    by (rule find_as_filter)
  show "resolveFieldName_detect requested available =
       (case resolveFieldName requested available kindMap [] of
          Some n \<Rightarrow> Some n
        | None \<Rightarrow> List.find ?C available) \<and>
     (length (filter ?C available) \<le> 1 \<longrightarrow>
      resolveFieldName_detect requested available =
        resolveFieldName requested available kindMap [])"
    unfolding d f
    by (cases "filter ?C available") (auto simp add: first split: option.splits list.splits)
qed

theorem resolvers_agree_unless_ambiguous_witness:
  "[] \<notin> set [''Full_Name'', ''Email''] \<and>
   length (filter (\<lambda>name. includesStr (normalize_str name) (normalize_str ''mail''))
     [''Full_Name'', ''Email'']) \<le> 1 \<and>
   resolveFieldName_detect ''mail'' [''Full_Name'', ''Email''] =
     resolveFieldName ''mail'' [''Full_Name'', ''Email''] Map.empty [] \<and>
   resolveFieldName ''mail'' [''Full_Name'', ''Email''] Map.empty [] = Some ''Email''"
proof -
  have h: "[] \<notin> set [''Full_Name'', ''Email'']" by simp
  have l: "length (filter (\<lambda>name. includesStr (normalize_str name) (normalize_str ''mail''))
     [''Full_Name'', ''Email'']) \<le> 1"
    by code_simp
  have v: "resolveFieldName ''mail'' [''Full_Name'', ''Email''] Map.empty [] = Some ''Email''"
    by code_simp
  from resolvers_agree_unless_ambiguous
    [where available = "[''Full_Name'', ''Email'']" and requested = "''mail''"
       and kindMap = Map.empty]
  show ?thesis using h l v by blast
qed

section \<open>Overlay geometry: units, page and bounds\<close>

text \<open>
  Claim C7. For every bounding box, the overlay geometry treats the box as normalized
  if and only if x is at most 1, y is at most 1, the width is absent or at most 1 and
  the height is absent or at most 1, and otherwise as absolute page-unit coordinates:
  a normalized box is scaled by the page size, an absolute one is used as it is. The
  decision depends on the box alone.
\<close>

theorem unit_inference_per_box:
  "(isNormalized b \<longleftrightarrow>
      bb_x b \<le> 1 \<and> bb_y b \<le> 1 \<and>
      (case bb_width b of None \<Rightarrow> True | Some w \<Rightarrow> w \<le> 1) \<and>
      (case bb_height b of None \<Rightarrow> True | Some h \<Rightarrow> h \<le> 1)) \<and>
   (isNormalized b \<longrightarrow>
      boxWidth pw b = (case bb_width b of None \<Rightarrow> 0.4 | Some w \<Rightarrow> w) * pw \<and>
      boxHeight ph b = (case bb_height b of None \<Rightarrow> 0.04 | Some h \<Rightarrow> h) * ph \<and>
      boxX pw b = max 0 (min 1 (bb_x b)) * pw \<and>
      yFromTop ph b = max 0 (min 1 (bb_y b)) * ph) \<and>
   (\<not> isNormalized b \<longrightarrow>
      boxWidth pw b = (case bb_width b of None \<Rightarrow> pw * 0.4 | Some w \<Rightarrow> w) \<and>
      boxHeight ph b = (case bb_height b of None \<Rightarrow> 24 | Some h \<Rightarrow> h) \<and>
      boxX pw b = max 0 (min (pw - boxWidth pw b) (bb_x b)) \<and>
      yFromTop ph b = max 0 (min ph (bb_y b)))"
proof (intro conjI)
  show "isNormalized b \<longleftrightarrow>
      bb_x b \<le> 1 \<and> bb_y b \<le> 1 \<and>
      (case bb_width b of None \<Rightarrow> True | Some w \<Rightarrow> w \<le> 1) \<and>
      (case bb_height b of None \<Rightarrow> True | Some h \<Rightarrow> h \<le> 1)"
    by (simp add: isNormalized_def split: option.splits)
  show "isNormalized b \<longrightarrow>
      boxWidth pw b = (case bb_width b of None \<Rightarrow> 0.4 | Some w \<Rightarrow> w) * pw \<and>
      boxHeight ph b = (case bb_height b of None \<Rightarrow> 0.04 | Some h \<Rightarrow> h) * ph \<and>
      boxX pw b = max 0 (min 1 (bb_x b)) * pw \<and>
      yFromTop ph b = max 0 (min 1 (bb_y b)) * ph"
    by (cases "bb_width b"; cases "bb_height b")
       (simp_all add: boxWidth_def boxHeight_def boxX_def yFromTop_def rawWidth_def
          rawHeight_def)
  show "\<not> isNormalized b \<longrightarrow>
      boxWidth pw b = (case bb_width b of None \<Rightarrow> pw * 0.4 | Some w \<Rightarrow> w) \<and>
      boxHeight ph b = (case bb_height b of None \<Rightarrow> 24 | Some h \<Rightarrow> h) \<and>
      boxX pw b = max 0 (min (pw - boxWidth pw b) (bb_x b)) \<and>
      yFromTop ph b = max 0 (min ph (bb_y b))"
    by (cases "bb_width b"; cases "bb_height b")
       (simp_all add: boxWidth_def boxHeight_def boxX_def yFromTop_def rawWidth_def
          rawHeight_def)
qed

theorem unit_inference_per_box_witness:
  "isNormalized \<lparr>bb_page = 0, bb_x = 0.1, bb_y = 0.2, bb_width = Some 0.3, bb_height = Some 0.05\<rparr> \<and>
   boxWidth 612 \<lparr>bb_page = 0, bb_x = 0.1, bb_y = 0.2, bb_width = Some 0.3, bb_height = Some 0.05\<rparr>
     = 0.3 * 612 \<and>
   \<not> isNormalized \<lparr>bb_page = 0, bb_x = 120, bb_y = 300, bb_width = Some 200, bb_height = Some 20\<rparr> \<and>
   boxWidth 612 \<lparr>bb_page = 0, bb_x = 120, bb_y = 300, bb_width = Some 200, bb_height = Some 20\<rparr>
     = 200 \<and>
   boxX 612 \<lparr>bb_page = 0, bb_x = 120, bb_y = 300, bb_width = Some 200, bb_height = Some 20\<rparr>
     = 120"
  using
    unit_inference_per_box [of "\<lparr>bb_page = 0, bb_x = 0.1, bb_y = 0.2, bb_width = Some 0.3,
      bb_height = Some 0.05\<rparr>" 612 792]
    unit_inference_per_box [of "\<lparr>bb_page = 0, bb_x = 120, bb_y = 300, bb_width = Some 200,
      bb_height = Some 20\<rparr>" 612 792]
  by simp

lemma pageIndexOf_range:
  "0 < n \<Longrightarrow> 0 \<le> pageIndexOf n p \<and> pageIndexOf n p < int n"
  by (auto simp: pageIndexOf_def Let_def)

lemma pageIndexOf_spec: "0 < n \<Longrightarrow> pageIndexOf n p = spec_pageIndex n (round p)"
  by (auto simp: pageIndexOf_def spec_pageIndex_def Let_def)

lemma drawValueAtBBox_page:
  assumes "pages \<noteq> []"
  shows "map_option dt_page (drawValueAtBBox pages (Some b) v) =
         Some (nat (pageIndexOf (length pages) (bb_page b)))"
proof -
  have "0 < length pages" using assms by simp
  then have "nat (pageIndexOf (length pages) (bb_page b)) < length pages"
    using pageIndexOf_range [of "length pages" "bb_page b"] by linarith
  then show ?thesis
    by (simp add: drawValueAtBBox_def Let_def)
qed

text \<open>
  Claim C8. For every bounding box and every document with at least one page, the
  final overlay page index is the one of the specification's rule applied to the
  rounded page value: zero-based, taken as one-based when out of range, and clamped
  between 0 and the page count minus one; the overlay draws on the page of that
  index. Page 1 of a one-page document is index 0.
\<close>

theorem page_index_follows_spec:
  "(0 < pageCount \<longrightarrow>
      pageIndexOf pageCount p = spec_pageIndex pageCount (round p) \<and>
      0 \<le> pageIndexOf pageCount p \<and> pageIndexOf pageCount p \<le> int pageCount - 1) \<and>
   (pages \<noteq> [] \<longrightarrow>
      map_option dt_page (drawValueAtBBox pages (Some b) v) =
      Some (nat (spec_pageIndex (length pages) (round (bb_page b))))) \<and>
   pageIndexOf 1 1 = 0"
proof (intro conjI impI)
  assume n: "0 < pageCount"
  show "pageIndexOf pageCount p = spec_pageIndex pageCount (round p)"
    using n by (rule pageIndexOf_spec)
  show "0 \<le> pageIndexOf pageCount p" "pageIndexOf pageCount p \<le> int pageCount - 1"
    using pageIndexOf_range [OF n, of p] by simp_all
next
  assume ne: "pages \<noteq> []"
  then have "0 < length pages" by simp
  then have "pageIndexOf (length pages) (bb_page b) =
      spec_pageIndex (length pages) (round (bb_page b))"
    by (rule pageIndexOf_spec)
  then show "map_option dt_page (drawValueAtBBox pages (Some b) v) =
      Some (nat (spec_pageIndex (length pages) (round (bb_page b))))"
    using drawValueAtBBox_page [OF ne, of b v] by simp
next
  show "pageIndexOf 1 1 = 0" by (simp add: pageIndexOf_def)
qed

theorem page_index_follows_spec_witness:
  "(0::nat) < 3 \<and> pageIndexOf 3 3 = spec_pageIndex 3 (round (3::real)) \<and>
   pageIndexOf 3 3 = 2 \<and> pageIndexOf 3 7 = 2 \<and> pageIndexOf 3 1 = 1 \<and>
   [\<lparr>pg_width = 612, pg_height = 792\<rparr>] \<noteq> [] \<and>
   map_option dt_page
     (drawValueAtBBox [\<lparr>pg_width = 612, pg_height = 792\<rparr>]
        (Some \<lparr>bb_page = 1, bb_x = 0.6, bb_y = 0.9, bb_width = Some 0.2, bb_height = Some 0.03\<rparr>)
        (VString ''2024-01-01'')) = Some 0"
proof -
  have v: "pageIndexOf 3 3 = 2" "pageIndexOf 3 7 = 2" "pageIndexOf 3 1 = 1"
    by (simp_all add: pageIndexOf_def)
  have s: "nat (spec_pageIndex (length [\<lparr>pg_width = 612, pg_height = 792\<rparr>])
      (round (bb_page \<lparr>bb_page = 1, bb_x = 0.6, bb_y = 0.9, bb_width = Some 0.2,
         bb_height = Some 0.03\<rparr>))) = 0"
    by (simp add: spec_pageIndex_def)
  from page_index_follows_spec [of 3 3 "[\<lparr>pg_width = 612, pg_height = 792\<rparr>]"
      "\<lparr>bb_page = 1, bb_x = 0.6, bb_y = 0.9, bb_width = Some 0.2, bb_height = Some 0.03\<rparr>"
      "VString ''2024-01-01''"]
  show ?thesis using v s by simp
qed

text \<open>
  Claim C9, as stated: the scaled rectangle cannot exceed the page, x plus width being
  at most the page width, and correspondingly for y. A normalized box with x = 0.75,
  width 0.5, y = 0.875 and height 0.25 on a page 612 wide and 792 high is scaled to
  x = 459 and width 306, to 693 from the top and height 198: the rectangle ends at 765
  and at 891.
\<close>

theorem rectangle_exceeds_page_counterexample:
  "isNormalized \<lparr>bb_page = 0, bb_x = 0.75, bb_y = 0.875, bb_width = Some 0.5, bb_height = Some 0.25\<rparr> \<and>
   boxX 612 \<lparr>bb_page = 0, bb_x = 0.75, bb_y = 0.875, bb_width = Some 0.5, bb_height = Some 0.25\<rparr>
     = 459 \<and>
   boxWidth 612 \<lparr>bb_page = 0, bb_x = 0.75, bb_y = 0.875, bb_width = Some 0.5, bb_height = Some 0.25\<rparr>
     = 306 \<and>
   boxX 612 \<lparr>bb_page = 0, bb_x = 0.75, bb_y = 0.875, bb_width = Some 0.5, bb_height = Some 0.25\<rparr> +
   boxWidth 612 \<lparr>bb_page = 0, bb_x = 0.75, bb_y = 0.875, bb_width = Some 0.5, bb_height = Some 0.25\<rparr>
     > 612 \<and>
   yFromTop 792 \<lparr>bb_page = 0, bb_x = 0.75, bb_y = 0.875, bb_width = Some 0.5, bb_height = Some 0.25\<rparr>
     = 693 \<and>
   boxHeight 792 \<lparr>bb_page = 0, bb_x = 0.75, bb_y = 0.875, bb_width = Some 0.5, bb_height = Some 0.25\<rparr>
     = 198 \<and>
   yFromTop 792 \<lparr>bb_page = 0, bb_x = 0.75, bb_y = 0.875, bb_width = Some 0.5, bb_height = Some 0.25\<rparr> +
   boxHeight 792 \<lparr>bb_page = 0, bb_x = 0.75, bb_y = 0.875, bb_width = Some 0.5, bb_height = Some 0.25\<rparr>
     > 792"
  by (simp add: boxX_def boxWidth_def isNormalized_def rawWidth_def yFromTop_def boxHeight_def
      rawHeight_def)



lemma roundToEighth_mono: "mono roundToEighth"
proof (rule monoI)
  fix x y :: real
  assume "x \<le> y"
  then have "round (x * 8) \<le> round (y * 8)" by (intro round_mono) simp
  then show "roundToEighth x \<le> roundToEighth y"
    by (simp add: roundToEighth_def divide_right_mono)
qed

lemma unit_clamp: "0 \<le> max 0 (min 1 (v::real)) \<and> max 0 (min 1 v) \<le> 1"
  by auto

lemma rounded_scale:
  fixes rnd :: "real \<Rightarrow> real" and v p :: real
  assumes m: "mono rnd" and z: "rnd 0 = 0" and f: "rnd p = p" and p: "0 \<le> p"
  shows "0 \<le> rnd (max 0 (min 1 v) * p) \<and> rnd (max 0 (min 1 v) * p) \<le> p"
proof -
  have lo: "0 \<le> max 0 (min 1 v) * p" using p unit_clamp [of v] by simp
  have "max 0 (min 1 v) * p \<le> 1 * p"
    using p unit_clamp [of v] by (intro mult_right_mono) auto
  then have hi: "max 0 (min 1 v) * p \<le> p" by simp
  have "rnd 0 \<le> rnd (max 0 (min 1 v) * p)" using lo by (rule monoD [OF m])
  moreover have "rnd (max 0 (min 1 v) * p) \<le> rnd p" using hi by (rule monoD [OF m])
  ultimately show ?thesis using z f by simp
qed

text \<open>Without rounding, the constants on doubles are the constants on the reals.\<close>

lemma geometry_fl_exact:
  "rawWidth_fl (\<lambda>r. r) pw b = rawWidth pw b \<and> boxWidth_fl (\<lambda>r. r) pw b = boxWidth pw b \<and>
   boxX_fl (\<lambda>r. r) pw b = boxX pw b \<and> yFromTop_fl (\<lambda>r. r) ph b = yFromTop ph b"
  by (simp add: rawWidth_fl_def rawWidth_def boxWidth_fl_def boxWidth_def boxX_fl_def boxX_def
      yFromTop_fl_def yFromTop_def)

text \<open>
  Claim C9, amended: for every bounding box (normalized or absolute, with the defaults
  for a missing width or height) on a page whose width and height are doubles that are
  not negative, computed as the code computes on doubles: the scaled distance from the
  top lies between 0 and the page height; the scaled x of a normalized box lies
  between 0 and the page width; and for an absolute box whose width is at most the
  page width, x is clamped between 0 and the difference of page width and width as the
  code computes it, a rounded difference, and is at most the page width when the width
  is not negative. That x plus width is at most the page width is not part of it.
\<close>

theorem rectangle_clamps:
  "mono rnd \<and> rnd 0 = 0 \<and> rnd pw = pw \<and> rnd ph = ph \<longrightarrow>
   (0 \<le> ph \<longrightarrow> 0 \<le> yFromTop_fl rnd ph b \<and> yFromTop_fl rnd ph b \<le> ph) \<and>
   (isNormalized b \<and> 0 \<le> pw \<longrightarrow> 0 \<le> boxX_fl rnd pw b \<and> boxX_fl rnd pw b \<le> pw) \<and>
   (\<not> isNormalized b \<and> boxWidth_fl rnd pw b \<le> pw \<longrightarrow>
      0 \<le> boxX_fl rnd pw b \<and> boxX_fl rnd pw b \<le> rnd (pw - boxWidth_fl rnd pw b)) \<and>
   (\<not> isNormalized b \<and> 0 \<le> boxWidth_fl rnd pw b \<and> boxWidth_fl rnd pw b \<le> pw \<longrightarrow>
      boxX_fl rnd pw b \<le> pw)"
proof (intro impI)
  assume h: "mono rnd \<and> rnd 0 = 0 \<and> rnd pw = pw \<and> rnd ph = ph"
  then have m: "mono rnd" and z: "rnd 0 = 0" and fw: "rnd pw = pw" and fh: "rnd ph = ph"
    by simp_all
  have a: "0 \<le> yFromTop_fl rnd ph b \<and> yFromTop_fl rnd ph b \<le> ph" if ph: "0 \<le> ph"
  proof (cases "isNormalized b")
    case True
    then show ?thesis
      using rounded_scale [OF m z fh ph, of "bb_y b"] by (simp add: yFromTop_fl_def)
  next
    case False
    then show ?thesis using ph by (auto simp: yFromTop_fl_def)
  qed
  have b: "0 \<le> boxX_fl rnd pw b \<and> boxX_fl rnd pw b \<le> pw" if n: "isNormalized b \<and> 0 \<le> pw"
    using n rounded_scale [OF m z fw, of "bb_x b"] by (simp add: boxX_fl_def)
  have c: "0 \<le> boxX_fl rnd pw b \<and> boxX_fl rnd pw b \<le> rnd (pw - boxWidth_fl rnd pw b)"
    if n: "\<not> isNormalized b \<and> boxWidth_fl rnd pw b \<le> pw"
  proof -
    have "0 \<le> pw - boxWidth_fl rnd pw b" using n by simp
    then have "rnd 0 \<le> rnd (pw - boxWidth_fl rnd pw b)" by (rule monoD [OF m])
    then have "0 \<le> rnd (pw - boxWidth_fl rnd pw b)" using z by simp
    then show ?thesis using n by (auto simp: boxX_fl_def)
  qed
  have d: "boxX_fl rnd pw b \<le> pw"
    if n: "\<not> isNormalized b \<and> 0 \<le> boxWidth_fl rnd pw b \<and> boxWidth_fl rnd pw b \<le> pw"
  proof -
    have "pw - boxWidth_fl rnd pw b \<le> pw" using n by simp
    then have "rnd (pw - boxWidth_fl rnd pw b) \<le> rnd pw" by (rule monoD [OF m])
    then have "rnd (pw - boxWidth_fl rnd pw b) \<le> pw" using fw by simp
    then show ?thesis using c n by auto
  qed
  show "(0 \<le> ph \<longrightarrow> 0 \<le> yFromTop_fl rnd ph b \<and> yFromTop_fl rnd ph b \<le> ph) \<and>
   (isNormalized b \<and> 0 \<le> pw \<longrightarrow> 0 \<le> boxX_fl rnd pw b \<and> boxX_fl rnd pw b \<le> pw) \<and>
   (\<not> isNormalized b \<and> boxWidth_fl rnd pw b \<le> pw \<longrightarrow>
      0 \<le> boxX_fl rnd pw b \<and> boxX_fl rnd pw b \<le> rnd (pw - boxWidth_fl rnd pw b)) \<and>
   (\<not> isNormalized b \<and> 0 \<le> boxWidth_fl rnd pw b \<and> boxWidth_fl rnd pw b \<le> pw \<longrightarrow>
      boxX_fl rnd pw b \<le> pw)"
    using a b c d by blast
qed

theorem rectangle_clamps_witness:
  "mono roundToEighth \<and> roundToEighth 0 = 0 \<and> roundToEighth 612 = 612 \<and>
   roundToEighth 792 = 792 \<and> (0::real) \<le> 612 \<and> (0::real) \<le> 792 \<and>
   \<not> isNormalized \<lparr>bb_page = 0, bb_x = 900, bb_y = 300, bb_width = Some 121.25, bb_height = Some 20\<rparr> \<and>
   0 \<le> boxWidth_fl roundToEighth 612
     \<lparr>bb_page = 0, bb_x = 900, bb_y = 300, bb_width = Some 121.25, bb_height = Some 20\<rparr> \<and>
   boxWidth_fl roundToEighth 612
     \<lparr>bb_page = 0, bb_x = 900, bb_y = 300, bb_width = Some 121.25, bb_height = Some 20\<rparr> \<le> 612 \<and>
   boxX_fl roundToEighth 612
     \<lparr>bb_page = 0, bb_x = 900, bb_y = 300, bb_width = Some 121.25, bb_height = Some 20\<rparr> = 490.75 \<and>
   boxX_fl roundToEighth 612
     \<lparr>bb_page = 0, bb_x = 900, bb_y = 300, bb_width = Some 121.25, bb_height = Some 20\<rparr> \<le> 612 \<and>
   yFromTop_fl roundToEighth 792
     \<lparr>bb_page = 0, bb_x = 900, bb_y = 300, bb_width = Some 121.25, bb_height = Some 20\<rparr> \<le> 792 \<and>
   isNormalized \<lparr>bb_page = 0, bb_x = 0.3, bb_y = 0.7, bb_width = None, bb_height = None\<rparr> \<and>
   boxX_fl roundToEighth 612
     \<lparr>bb_page = 0, bb_x = 0.3, bb_y = 0.7, bb_width = None, bb_height = None\<rparr> = 183.625 \<and>
   boxX_fl roundToEighth 612
     \<lparr>bb_page = 0, bb_x = 0.3, bb_y = 0.7, bb_width = None, bb_height = None\<rparr> \<le> 612"
proof -
  let ?b = "\<lparr>bb_page = 0, bb_x = 900, bb_y = 300, bb_width = Some 121.25, bb_height = Some 20\<rparr>"
  let ?c = "\<lparr>bb_page = 0, bb_x = 0.3, bb_y = 0.7, bb_width = None, bb_height = None\<rparr>"
  have r: "roundToEighth 0 = 0" "roundToEighth 612 = 612" "roundToEighth 792 = 792"
    by (simp_all add: roundToEighth_def)
  have n: "\<not> isNormalized ?b" by (simp add: isNormalized_def)
  have w: "boxWidth_fl roundToEighth 612 ?b = 121.25"
    by (simp add: boxWidth_fl_def rawWidth_fl_def isNormalized_def)
  have x: "boxX_fl roundToEighth 612 ?b = 490.75" by code_simp
  have m: "isNormalized ?c" by (simp add: isNormalized_def)
  have y: "boxX_fl roundToEighth 612 ?c = 183.625" by code_simp
  from rectangle_clamps [of roundToEighth 612 792 ?b] rectangle_clamps [of roundToEighth 612 792 ?c]
  show ?thesis using roundToEighth_mono r n w x m y by simp
qed

section \<open>The validator\<close>

lemma mapE_length: "mapE f xs = Inr ys \<Longrightarrow> length ys = length xs"
  by (induction xs arbitrary: ys) (auto split: sum.splits)

lemma mapE_replicate: "f x = Inr y \<Longrightarrow> mapE f (replicate k x) = Inr (replicate k y)"
  by (induction k) simp_all

lemma parseResponse_cases:
  "parseResponse rt raw =
     (case JSON_parse rt (jsonBlock raw) of
        Inl e \<Rightarrow> Inr \<lparr>dr_fields = [], dr_title = None\<rparr>
      | Inr parsed \<Rightarrow>
          (case validate rt parsed of
             Inl e \<Rightarrow> Inr \<lparr>dr_fields = [], dr_title = None\<rparr>
           | Inr r \<Rightarrow> Inr r))"
  by (simp add: parseResponse_def tryCatch_def andThen_def split: sum.splits)

text \<open>
  Claim C5. For every raw recognizer payload the validator throws nothing, and if the
  payload, after the extraction of a fenced block, is not parseable JSON, it returns
  exactly an empty list of fields and no title.
\<close>

theorem parseResponse_never_throws:
  "(\<exists>r. parseResponse rt raw = Inr r) \<and>
   (isl (JSON_parse rt (jsonBlock raw)) \<longrightarrow>
      parseResponse rt raw = Inr \<lparr>dr_fields = [], dr_title = None\<rparr>)"
  by (auto simp add: parseResponse_cases split: sum.splits)

theorem parseResponse_never_throws_witness:
  "isl (JSON_parse exampleRuntime (jsonBlock ''not json'')) \<and>
   parseResponse exampleRuntime ''not json'' = Inr \<lparr>dr_fields = [], dr_title = None\<rparr>"
proof -
  have h: "isl (JSON_parse exampleRuntime (jsonBlock ''not json''))"
    by code_simp
  from parseResponse_never_throws [of exampleRuntime "''not json''"] h show ?thesis
    by blast
qed

text \<open>The reader on an array of \<open>k + 1\<close> entries that have a name only.\<close>

lemma readValue_entry:
  \<open>readValue (Suc (Suc (Suc n))) (''{"name":"f"}'' @ rest) =
     Some (JObj [(''name'', JStr ''f'')], rest)\<close>
  by (simp add: isJsonSpace_def)

lemma readElements_entries:
  \<open>readElements (Suc (Suc (Suc (Suc (k + m))))) acc
     (concat (replicate k ''{"name":"f"},'') @ ''{"name":"f"}]'' @ rest) =
   Some (JArr (acc @ replicate (Suc k) (JObj [(''name'', JStr ''f'')])), rest)\<close>
proof (induction k arbitrary: acc)
  case 0
  show ?case
    using readValue_entry [of m "'']'' @ rest"]
    by (simp add: isJsonSpace_def del: readValue.simps)
next
  case (Suc k)
  show ?case
    using readValue_entry [of "Suc (k + m)"
        \<open>'','' @ concat (replicate k ''{"name":"f"},'') @ ''{"name":"f"}]'' @ rest\<close>]
      Suc.IH [of "acc @ [JObj [(''name'', JStr ''f'')]]"]
    by (simp add: isJsonSpace_def replicate_app_Cons_same del: readValue.simps)
qed

lemma readValue_entries:
  \<open>readValue (Suc (Suc (Suc (Suc (Suc (k + m))))))
     (''['' @ concat (replicate k ''{"name":"f"},'') @ ''{"name":"f"}]'' @ rest) =
   Some (JArr (replicate (Suc k) (JObj [(''name'', JStr ''f'')])), rest)\<close>
  using readElements_entries [of k m "[]" rest]
  by (cases k) (simp_all add: isJsonSpace_def del: readElements.simps)

lemma readJSON_fifty:
  \<open>readJSON (''['' @ concat (replicate 49 ''{"name":"f"},'') @ ''{"name":"f"}]'') =
     Inr (JArr (replicate 50 (JObj [(''name'', JStr ''f'')])))\<close>
proof -
  have len: \<open>length (''['' @ concat (replicate 49 ''{"name":"f"},'') @ ''{"name":"f"}]'') =
      4 + (49 + 598)\<close>
    by (simp add: length_concat sum_list_replicate)
  show ?thesis
    unfolding readJSON_def len
    using readValue_entries [of 49 598 "[]"]
    by (simp del: readValue.simps replicate.simps add: numeral_eq_Suc)
qed

lemma coerceField_entry:
  "coerceField nts (JObj [(''name'', JStr ''f'')]) =
     Inr \<lparr>f_name = ''f'', f_label = ''f'', f_type = TText, f_options = None,
          f_placeholder = None, f_bbox = None\<rparr>"
  by (simp add: coerceField_def andThen_def getProp_def String_or_empty_def nullish_def
      truthyValue_def coerceBBox_def trim_def isWhiteSpace_def allowedTypes_def toLowerCase_def
      toLowerChar_def)

lemma fenceAt_no_backtick: "c \<noteq> CHR 0x60 \<Longrightarrow> fenceAt (c # cs) = None"
proof -
  assume c: "c \<noteq> CHR 0x60"
  have "toLowerChar c \<noteq> CHR 0x60"
  proof
    assume l: "toLowerChar c = CHR 0x60"
    then have "(of_char (toLowerChar c) :: nat) = 96" by simp
    then have "(of_char c :: nat) = 96"
      by (auto simp: toLowerChar_def Let_def split: if_splits)
    then have "char_of (of_char c :: nat) = (char_of (96 :: nat) :: char)" by simp
    moreover have "(char_of (96 :: nat) :: char) = CHR 0x60" by code_simp
    ultimately show False using c by simp
  qed
  then show ?thesis
    by (cases cs) (auto simp: fenceAt_def toLowerCase_def)
qed

lemma matchFence_no_backtick: "CHR 0x60 \<notin> set s \<Longrightarrow> matchFence s = None"
  by (induction s) (auto simp: fenceAt_no_backtick)

text \<open>
  Claim C6, as stated: the validator retains at most 30 proposals, and at most 30 of a
  well-formed response of 50 entries. It retains all 50.
\<close>

theorem parseResponse_fifty_counterexample:
  \<open>map_sum id (length \<circ> dr_fields)
     (parseResponse exampleRuntime
        (''['' @ concat (replicate 49 ''{"name":"f"},'') @ ''{"name":"f"}]'')) = Inr 50\<close>
proof -
  have nofence: \<open>jsonBlock (''['' @ concat (replicate 49 ''{"name":"f"},'') @ ''{"name":"f"}]'') =
      ''['' @ concat (replicate 49 ''{"name":"f"},'') @ ''{"name":"f"}]''\<close>
  proof -
    have \<open>matchFence (''['' @ concat (replicate 49 ''{"name":"f"},'') @ ''{"name":"f"}]'') = None\<close>
      by (rule matchFence_no_backtick) simp
    then show ?thesis by (simp only: jsonBlock_def option.case)
  qed
  have v: "validate exampleRuntime (JArr (replicate 50 (JObj [(''name'', JStr ''f'')]))) =
      Inr \<lparr>dr_fields = replicate 50 \<lparr>f_name = ''f'', f_label = ''f'', f_type = TText,
              f_options = None, f_placeholder = None, f_bbox = None\<rparr>,
            dr_title = None\<rparr>"
    by (simp add: validate_def payloadOf_def fieldsRaw_def getPropOpt_def titleOf_def
        andThen_def exampleRuntime_def
        mapE_replicate [where f = "coerceField integerToString", OF coerceField_entry]
        del: replicate.simps)
  have jp: \<open>JSON_parse exampleRuntime
      (jsonBlock (''['' @ concat (replicate 49 ''{"name":"f"},'') @ ''{"name":"f"}]'')) =
      Inr (JArr (replicate 50 (JObj [(''name'', JStr ''f'')])))\<close>
    unfolding nofence by (simp only: exampleRuntime_def runtime.select_convs readJSON_fifty)
  have \<open>parseResponse exampleRuntime
      (''['' @ concat (replicate 49 ''{"name":"f"},'') @ ''{"name":"f"}]'') =
      Inr \<lparr>dr_fields = replicate 50 \<lparr>f_name = ''f'', f_label = ''f'', f_type = TText,
              f_options = None, f_placeholder = None, f_bbox = None\<rparr>,
            dr_title = None\<rparr>\<close>
    by (simp only: parseResponse_cases jp v sum.case)
  then show ?thesis
    by (simp only: map_sum.simps comp_apply DetectionResponse.select_convs length_replicate)
qed

text \<open>
  Claim C6, amended: for every raw recognizer payload, the validator retains at most
  as many proposals as the payload's array of fields has entries, each retained
  proposal with a non-empty name and a non-empty label; it enforces no cap of 30.
\<close>

theorem parseResponse_bounded_by_entries:
  "parseResponse rt raw = Inr r \<longrightarrow>
     length (dr_fields r) \<le> length (rawEntries rt raw) \<and>
     (\<forall>f \<in> set (dr_fields r). f_name f \<noteq> [] \<and> f_label f \<noteq> [])"
proof
  assume p: "parseResponse rt raw = Inr r"
  show "length (dr_fields r) \<le> length (rawEntries rt raw) \<and>
     (\<forall>f \<in> set (dr_fields r). f_name f \<noteq> [] \<and> f_label f \<noteq> [])"
  proof (cases "JSON_parse rt (jsonBlock raw)")
    case (Inl e)
    then show ?thesis using p by (auto simp: parseResponse_cases)
  next
    case (Inr parsed)
    show ?thesis
    proof (cases "mapE (coerceField (Number_toString rt)) (fieldsRaw (payloadOf parsed))")
      case (Inl e)
      then show ?thesis using p Inr
        by (auto simp: parseResponse_cases validate_def andThen_def)
    next
      case mapped: (Inr ms)
      have len: "length ms = length (fieldsRaw (payloadOf parsed))"
        using mapped by (rule mapE_length)
      have r: "dr_fields r = filter (\<lambda>f. f_name f \<noteq> [] \<and> f_label f \<noteq> []) ms"
        using p Inr mapped by (auto simp: parseResponse_cases validate_def andThen_def)
      have "length (dr_fields r) \<le> length ms"
        unfolding r by (rule length_filter_le)
      then show ?thesis
        using len Inr r by (simp add: rawEntries_def)
    qed
  qed
qed

theorem parseResponse_bounded_by_entries_witness:
  \<open>parseResponse exampleRuntime ''```json [{"name":"a"},{"label":"b"},{"name":"c d","type":"Date"}] ```'' =
     Inr \<lparr>dr_fields =
            [\<lparr>f_name = ''a'', f_label = ''a'', f_type = TText, f_options = None,
              f_placeholder = None, f_bbox = None\<rparr>,
             \<lparr>f_name = ''c d'', f_label = ''c d'', f_type = TDate, f_options = None,
              f_placeholder = None, f_bbox = None\<rparr>],
          dr_title = None\<rparr> \<and>
   length (rawEntries exampleRuntime
     ''```json [{"name":"a"},{"label":"b"},{"name":"c d","type":"Date"}] ```'') = 3\<close>
proof -
  have p: \<open>parseResponse exampleRuntime
      ''```json [{"name":"a"},{"label":"b"},{"name":"c d","type":"Date"}] ```'' =
     Inr \<lparr>dr_fields =
            [\<lparr>f_name = ''a'', f_label = ''a'', f_type = TText, f_options = None,
              f_placeholder = None, f_bbox = None\<rparr>,
             \<lparr>f_name = ''c d'', f_label = ''c d'', f_type = TDate, f_options = None,
              f_placeholder = None, f_bbox = None\<rparr>],
          dr_title = None\<rparr>\<close>
    by code_simp
  have e: \<open>length (rawEntries exampleRuntime
     ''```json [{"name":"a"},{"label":"b"},{"name":"c d","type":"Date"}] ```'') = 3\<close>
    by code_simp
  from parseResponse_bounded_by_entries [THEN mp, OF p] p e show ?thesis
    by simp
qed

section \<open>One field, one proposal\<close>
















section \<open>Documents with form fields are rejected\<close>









end
